theory Spec2Isabelle
  imports Complex_Main
begin

section \<open>JavaScript numbers and values\<close>

text \<open>
  The program is the React Native screen \<^verbatim>\<open>src/app/onnx-test.tsx\<close>. Its numbers are
  JavaScript numbers: the elements of the \<^verbatim>\<open>Float32Array\<close> that the inference session
  returns, the class index and the screen dimensions. A number is a finite value, NaN or
  one of the two infinities. Finite values are modelled as reals: every 32-bit float is
  one, and comparison and \<^verbatim>\<open>Math.floor\<close> are exact on them. The operators \<^verbatim>\<open>*\<close> and
  \<^verbatim>\<open>-\<close> round their exact result to the nearest 64-bit float (\<open>round64\<close> below). The
  sign of zero is not modelled.

  Reading an array past its end gives \<^verbatim>\<open>undefined\<close>, so a value that has been read
  from an array is a \<open>jsvalue\<close>.
\<close>

datatype number = Fin real | NaN | PosInf | NegInf

datatype jsvalue = Undefined | Number number

fun ToNumber :: "jsvalue \<Rightarrow> number" where
  "ToNumber Undefined = NaN"
| "ToNumber (Number n) = n"

text \<open>\<^verbatim>\<open>Math.floor(x)\<close>: the argument is converted to a number first.\<close>

fun Math_floor :: "jsvalue \<Rightarrow> number" where
  "Math_floor Undefined = NaN"
| "Math_floor (Number (Fin r)) = Fin (of_int \<lfloor>r\<rfloor>)"
| "Math_floor (Number NaN) = NaN"
| "Math_floor (Number PosInf) = PosInf"
| "Math_floor (Number NegInf) = NegInf"

text \<open>The comparisons \<^verbatim>\<open>x < y\<close> and \<^verbatim>\<open>x >= y\<close>: both are false when an operand is NaN.\<close>

fun js_lt :: "number \<Rightarrow> number \<Rightarrow> bool" where
  "js_lt NaN _ = False"
| "js_lt _ NaN = False"
| "js_lt (Fin a) (Fin b) = (a < b)"
| "js_lt (Fin _) PosInf = True"
| "js_lt (Fin _) NegInf = False"
| "js_lt PosInf _ = False"
| "js_lt NegInf NegInf = False"
| "js_lt NegInf _ = True"

fun js_ge :: "number \<Rightarrow> number \<Rightarrow> bool" where
  "js_ge NaN _ = False"
| "js_ge _ NaN = False"
| "js_ge x y = (\<not> js_lt x y)"

text \<open>\<^verbatim>\<open>output[k]\<close> on a typed array: the element, or \<^verbatim>\<open>undefined\<close> out of range.\<close>

definition at_index :: "number list \<Rightarrow> nat \<Rightarrow> jsvalue" where
  "at_index output k = (if k < length output then Number (output ! k) else Undefined)"

section \<open>The label table\<close>

definition CLASSES :: "string list" where
  "CLASSES =
    [''person'', ''bicycle'', ''car'', ''motorcycle'', ''airplane'', ''bus'', ''train'', ''truck'',
     ''boat'', ''traffic light'', ''fire hydrant'', ''stop sign'', ''parking meter'', ''bench'',
     ''bird'', ''cat'', ''dog'', ''horse'', ''sheep'', ''cow'', ''elephant'', ''bear'', ''zebra'',
     ''giraffe'', ''backpack'', ''umbrella'', ''handbag'', ''tie'', ''suitcase'', ''frisbee'',
     ''skis'', ''snowboard'', ''sports ball'', ''kite'', ''baseball bat'', ''baseball glove'',
     ''skateboard'', ''surfboard'', ''tennis racket'', ''bottle'', ''wine glass'', ''cup'',
     ''fork'', ''knife'', ''spoon'', ''bowl'', ''banana'', ''apple'', ''sandwich'', ''orange'',
     ''broccoli'', ''carrot'', ''hot dog'', ''pizza'', ''donut'', ''cake'', ''chair'', ''couch'',
     ''potted plant'', ''bed'', ''dining table'', ''toilet'', ''tv'', ''laptop'', ''mouse'',
     ''remote'', ''keyboard'', ''cell phone'', ''microwave'', ''oven'', ''toaster'', ''sink'',
     ''refrigerator'', ''book'', ''clock'', ''vase'', ''scissors'', ''teddy bear'', ''hair drier'',
     ''toothbrush'']"

text \<open>
  \<^verbatim>\<open>CLASSES[c]\<close> for a number \<open>c\<close>, as the overlay's label does it: the entry when \<open>c\<close>
  is a whole number from 0 to the last index, \<^verbatim>\<open>undefined\<close> (here \<open>None\<close>) otherwise.
\<close>

fun CLASSES_at :: "number \<Rightarrow> string option" where
  "CLASSES_at (Fin r) =
     (if r = of_int \<lfloor>r\<rfloor> \<and> 0 \<le> r \<and> r < real (length CLASSES)
      then Some (CLASSES ! nat \<lfloor>r\<rfloor>) else None)"
| "CLASSES_at _ = None"

definition valid_index :: "number \<Rightarrow> bool" where
  "valid_index c \<longleftrightarrow> CLASSES_at c \<noteq> None"

section \<open>Decoding the output array\<close>

text \<open>
  A \<^verbatim>\<open>Detection\<close> has the fields \<^verbatim>\<open>class\<close>, \<^verbatim>\<open>confidence\<close> and \<^verbatim>\<open>bbox\<close>; the first is
  called \<open>cls\<close> here.
\<close>

record detection =
  cls :: number
  confidence :: jsvalue
  bbox :: "jsvalue list"

definition valuesPerBox :: nat where
  "valuesPerBox = 6"

text \<open>
  \<^verbatim>\<open>output.length / valuesPerBox\<close> is a division of numbers, not of integers. For the
  length of an array the rounded quotient compares with a loop index as the exact one
  does, so the quotient is taken in the reals.
\<close>

definition numDetections :: "number list \<Rightarrow> real" where
  "numDetections output = real (length output) / real valuesPerBox"

text \<open>The test of the \<^verbatim>\<open>continue\<close>: \<^verbatim>\<open>classId < 0 || classId >= CLASSES.length\<close>.\<close>

definition invalid_class :: "number \<Rightarrow> bool" where
  "invalid_class classId \<longleftrightarrow>
     js_lt classId (Fin 0) \<or> js_ge classId (Fin (real (length CLASSES)))"

definition classId_of :: "number list \<Rightarrow> nat \<Rightarrow> number" where
  "classId_of output offset = Math_floor (at_index output (offset + 5))"

definition detection_of :: "number list \<Rightarrow> nat \<Rightarrow> detection" where
  "detection_of output offset =
     \<lparr>cls = classId_of output offset,
      confidence = at_index output (offset + 4),
      bbox = [at_index output offset, at_index output (offset + 1),
              at_index output (offset + 2), at_index output (offset + 3)]\<rparr>"

text \<open>
  One pass of the loop body for the index \<open>i\<close>. The state of the loop is the list
  \<^verbatim>\<open>detections\<close> built so far, together with the indices at which \<^verbatim>\<open>output\<close> has been
  read, in the order of the reads: the confidence and the class first, the four
  coordinates only when the window is kept.
\<close>

definition body :: "number list \<Rightarrow> nat \<Rightarrow> detection list \<times> nat list \<Rightarrow> detection list \<times> nat list" where
  "body output i st =
     (let offset = i * valuesPerBox;
          rd = snd st @ [offset + 4, offset + 5]
      in if invalid_class (classId_of output offset) then (fst st, rd)
         else (fst st @ [detection_of output offset],
               rd @ [offset, offset + 1, offset + 2, offset + 3]))"

function loop :: "number list \<Rightarrow> nat \<Rightarrow> detection list \<times> nat list \<Rightarrow> detection list \<times> nat list" where
  "loop output i st =
     (if real i < numDetections output then loop output (i + 1) (body output i st) else st)"
  by pat_completeness auto
termination
proof (relation "measure (\<lambda>(output, i, st). length output - i)")
  show "wf (measure (\<lambda>(output, i, st). length output - i))"
    by simp
next
  fix out :: "number list" and i :: nat and st :: "detection list \<times> nat list"
  assume "real i < numDetections out"
  then have "real (i * 6) < real (length out)"
    by (simp add: numDetections_def valuesPerBox_def)
  then have "i * 6 < length out"
    by (simp only: of_nat_less_iff)
  then have "i < length out"
    by arith
  then show "((out, i + 1, body out i st), (out, i, st))
      \<in> measure (\<lambda>(output, i, st). length output - i)"
    by simp
qed

declare loop.simps [simp del]

definition decode :: "number list \<Rightarrow> detection list" where
  "decode output = fst (loop output 0 ([], []))"

definition decode_reads :: "number list \<Rightarrow> nat list" where
  "decode_reads output = snd (loop output 0 ([], []))"

section \<open>The detection cycle\<close>

text \<open>
  \<^verbatim>\<open>runDetection\<close> is an asynchronous function: it calls the camera, the image
  manipulator and the inference session, and waits for each. What such a call gives is
  in the environment of the model; a promise resolves with a value, rejects, or has not
  settled. What a rejection or a \<^verbatim>\<open>throw\<close> carries is an object with a \<^verbatim>\<open>message\<close>, or
  \<^verbatim>\<open>null\<close> or \<^verbatim>\<open>undefined\<close>, of which no \<^verbatim>\<open>message\<close> can be read.
\<close>

datatype thrown = Error string | Nullish

datatype 'a outcome = Resolved 'a | Rejected thrown | Pending

datatype call = TakePictureAsync | ManipulateAsync | SessionRun

text \<open>
  The environment of one invocation: the \<^verbatim>\<open>uri\<close> of the photo taken, the \<^verbatim>\<open>base64\<close>
  field of the resized image for a given uri (\<open>None\<close> when the field is absent), the
  decoding \<^verbatim>\<open>atob\<close> of the standard library (\<open>Inl\<close> when it throws), and the \<^verbatim>\<open>data\<close>
  of \<^verbatim>\<open>output0\<close> for the bytes given to the session (\<open>None\<close> when \<^verbatim>\<open>output0?.data\<close> is
  absent). A call whose result cannot be read at all (no photo, no resized image, no
  results object) makes the next line throw, and counts as rejected.
\<close>

record env =
  takePictureAsync :: "string outcome"
  manipulateAsync :: "string \<Rightarrow> string option outcome"
  atob :: "string \<Rightarrow> thrown + string"
  run :: "nat list \<Rightarrow> number list option outcome"

datatype InferenceSession = TheSession

datatype CameraView = TheCamera

text \<open>
  The state of the component: its React state and the camera reference, and next to
  them the list of the external calls issued so far, which the source does not keep and
  which is here to count them.
\<close>

record app_state =
  session :: "InferenceSession option"
  cameraRef :: "CameraView option"
  detections :: "detection list"
  modelLoading :: bool
  error :: "string option"
  isProcessing :: bool
  calls :: "call list"

text \<open>\<^verbatim>\<open>!resized.base64\<close> holds for an absent field and for the empty string.\<close>

fun falsy :: "string option \<Rightarrow> bool" where
  "falsy None = True"
| "falsy (Some b) = (b = [])"

text \<open>
  From the test of \<^verbatim>\<open>results.output0?.data\<close> to the end of the loop: an absent array
  throws, an array that is there (empty or not) is decoded.
\<close>

definition decode_results :: "number list option \<Rightarrow> string + detection list" where
  "decode_results data =
     (case data of
        None \<Rightarrow> Inl ''No detection results''
      | Some output \<Rightarrow> Inr (decode output))"

text \<open>How far the \<^verbatim>\<open>try\<close> block has gone: to its end, to a throw, or to a promise
  that has not settled.\<close>

datatype completion = Normal | Thrown thrown | Suspended

definition try_block :: "env \<Rightarrow> app_state \<Rightarrow> app_state \<times> completion" where
  "try_block e s0 =
     (let s1 = s0\<lparr>isProcessing := True, error := None\<rparr>;
          s2 = s1\<lparr>calls := calls s1 @ [TakePictureAsync]\<rparr>
      in case takePictureAsync e of
           Pending \<Rightarrow> (s2, Suspended)
         | Rejected m \<Rightarrow> (s2, Thrown m)
         | Resolved uri \<Rightarrow>
             (let s3 = s2\<lparr>calls := calls s2 @ [ManipulateAsync]\<rparr>
              in case manipulateAsync e uri of
                   Pending \<Rightarrow> (s3, Suspended)
                 | Rejected m \<Rightarrow> (s3, Thrown m)
                 | Resolved base64 \<Rightarrow>
                     if falsy base64 then (s3, Thrown (Error ''Failed to process image''))
                     else (case atob e (the base64) of
                             Inl m \<Rightarrow> (s3, Thrown m)
                           | Inr imageData \<Rightarrow>
                               (let imageBytes = map of_char imageData;
                                    s4 = s3\<lparr>calls := calls s3 @ [SessionRun]\<rparr>
                                in case run e imageBytes of
                                     Pending \<Rightarrow> (s4, Suspended)
                                   | Rejected m \<Rightarrow> (s4, Thrown m)
                                   | Resolved data \<Rightarrow>
                                       (case decode_results data of
                                          Inl m \<Rightarrow> (s4, Thrown (Error m))
                                        | Inr ds \<Rightarrow> (s4\<lparr>detections := ds\<rparr>, Normal))))))"

text \<open>
  The \<^verbatim>\<open>catch\<close> block: it reads the \<^verbatim>\<open>message\<close> of what was thrown and sets the error.
  On \<^verbatim>\<open>null\<close> or \<^verbatim>\<open>undefined\<close> the read itself throws, and the error is not set.
\<close>

fun catch_block :: "thrown \<Rightarrow> app_state \<Rightarrow> app_state" where
  "catch_block (Error m) s = s\<lparr>error := Some (''Detection failed: '' @ m)\<rparr>"
| "catch_block Nullish s = s"

text \<open>
  The whole function: the guard, the \<^verbatim>\<open>try\<close> block, \<^verbatim>\<open>catch\<close> and \<^verbatim>\<open>finally\<close>.

  \<^verbatim>\<open>runDetection\<close> is made anew at every render of the component, and the \<^verbatim>\<open>session\<close>
  and \<^verbatim>\<open>isProcessing\<close> that its guard reads are the constants of that render; only
  \<^verbatim>\<open>cameraRef.current\<close> is read when the function is called. So the function has two
  states as arguments: \<open>r\<close>, the state that the component had at the render which made
  the function, and \<open>s\<close>, the state at the call, which the setters change. The result is
  the state of the component when the invocation has ended, or where it waits for a
  promise that has not settled.
\<close>

definition runDetection :: "env \<Rightarrow> app_state \<Rightarrow> app_state \<Rightarrow> app_state" where
  "runDetection e r s =
     (if session r = None \<or> cameraRef s = None \<or> isProcessing r then s
      else case try_block e s of
             (s', Suspended) \<Rightarrow> s'
           | (s', Thrown t) \<Rightarrow> (catch_block t s')\<lparr>isProcessing := False\<rparr>
           | (s', Normal) \<Rightarrow> s'\<lparr>isProcessing := False\<rparr>)"

section \<open>The overlay\<close>

text \<open>
  The operators \<^verbatim>\<open>*\<close> and \<^verbatim>\<open>-\<close> give the exact result rounded to a 64-bit float: to
  the nearest one, and to the one with an even significand when two are equally near.
  A float has a significand of 53 bits; the exponent of a normal value goes from -1022
  to 1023, smaller values share the spacing of the least normal ones, and a rounded
  value whose exponent is 1024 or more (of magnitude \<open>2 ^ 1024\<close> or more) is an
  infinity.
\<close>

fun bit_length :: "nat \<Rightarrow> nat" where
  "bit_length n = (if n = 0 then 0 else Suc (bit_length (n div 2)))"

declare bit_length.simps [simp del]

text \<open>The exponent \<open>e\<close> with \<open>2 ^ e \<le> a < 2 ^ (e + 1)\<close>, for \<open>a > 0\<close>.\<close>

definition binade :: "real \<Rightarrow> int" where
  "binade a =
     (if 1 \<le> a then int (bit_length (nat \<lfloor>a\<rfloor>)) - 1
      else - int (bit_length (nat \<lceil>1 / a\<rceil> - 1)))"

definition pow2 :: "int \<Rightarrow> real" where
  "pow2 k = (if 0 \<le> k then 2 ^ nat k else 1 / 2 ^ nat (- k))"

definition round_half_even :: "real \<Rightarrow> int" where
  "round_half_even q =
     (let f = \<lfloor>q\<rfloor>; d = q - of_int f
      in if d < 1 / 2 then f else if 1 / 2 < d then f + 1
         else if even f then f else f + 1)"

definition round64 :: "real \<Rightarrow> number" where
  "round64 x =
     (if x = 0 then Fin 0
      else let u = pow2 (max (binade \<bar>x\<bar>) (- 1022) - 52);
               v = of_int (round_half_even (x / u)) * u
           in if 1024 \<le> binade \<bar>v\<bar> then (if 0 < x then PosInf else NegInf) else Fin v)"

text \<open>A real number that is a 64-bit float is one that rounding leaves as it is.\<close>

definition representable :: "real \<Rightarrow> bool" where
  "representable x \<longleftrightarrow> round64 x = Fin x"

fun js_times :: "number \<Rightarrow> number \<Rightarrow> number" where
  "js_times NaN _ = NaN"
| "js_times _ NaN = NaN"
| "js_times (Fin a) (Fin b) = round64 (a * b)"
| "js_times (Fin a) PosInf = (if a = 0 then NaN else if 0 < a then PosInf else NegInf)"
| "js_times (Fin a) NegInf = (if a = 0 then NaN else if 0 < a then NegInf else PosInf)"
| "js_times PosInf (Fin b) = (if b = 0 then NaN else if 0 < b then PosInf else NegInf)"
| "js_times NegInf (Fin b) = (if b = 0 then NaN else if 0 < b then NegInf else PosInf)"
| "js_times PosInf PosInf = PosInf"
| "js_times PosInf NegInf = NegInf"
| "js_times NegInf PosInf = NegInf"
| "js_times NegInf NegInf = PosInf"

fun js_minus :: "number \<Rightarrow> number \<Rightarrow> number" where
  "js_minus NaN _ = NaN"
| "js_minus _ NaN = NaN"
| "js_minus (Fin a) (Fin b) = round64 (a - b)"
| "js_minus (Fin _) PosInf = NegInf"
| "js_minus (Fin _) NegInf = PosInf"
| "js_minus PosInf PosInf = NaN"
| "js_minus PosInf _ = PosInf"
| "js_minus NegInf NegInf = NaN"
| "js_minus NegInf _ = NegInf"

text \<open>An element of an array pattern \<^verbatim>\<open>[x1, y1, x2, y2]\<close>: \<^verbatim>\<open>undefined\<close> when the array
  is too short.\<close>

definition element :: "jsvalue list \<Rightarrow> nat \<Rightarrow> jsvalue" where
  "element xs k = (if k < length xs then xs ! k else Undefined)"

record rect =
  boxX :: number
  boxY :: number
  boxWidth :: number
  boxHeight :: number

text \<open>The four lines of \<^verbatim>\<open>renderBoxes\<close> that take a box to screen space.\<close>

definition projectBox :: "jsvalue list \<Rightarrow> number \<Rightarrow> number \<Rightarrow> rect" where
  "projectBox b screenWidth screenHeight =
     (let x1 = ToNumber (element b 0); y1 = ToNumber (element b 1);
          x2 = ToNumber (element b 2); y2 = ToNumber (element b 3)
      in \<lparr>boxX = js_times x1 screenWidth,
          boxY = js_times y1 screenHeight,
          boxWidth = js_times (js_minus x2 x1) screenWidth,
          boxHeight = js_times (js_minus y2 y1) screenHeight\<rparr>)"

definition COLORS :: "string list" where
  "COLORS = [''#FF3B30'', ''#34C759'', ''#007AFF'', ''#5856D6'', ''#FF9500'']"

text \<open>
  What is drawn for each detection: the rectangle, its colour and the name of the class
  (\<open>None\<close> where \<^verbatim>\<open>CLASSES[det.class]\<close> is \<^verbatim>\<open>undefined\<close>). The percentage that follows the
  name in the label is formatted by \<^verbatim>\<open>toFixed\<close> and is left out.
\<close>

definition renderBoxes :: "number \<Rightarrow> number \<Rightarrow> detection list \<Rightarrow> (rect \<times> string \<times> string option) list" where
  "renderBoxes screenWidth screenHeight dets =
     map (\<lambda>(idx, det).
            (projectBox (bbox det) screenWidth screenHeight,
             COLORS ! (idx mod length COLORS),
             CLASSES_at (cls det)))
         (zip [0..<length dets] dets)"

section \<open>The wording of the specification for the class index\<close>

text \<open>
  The specification says that the class value is truncated to an integer. This is
  truncation as the specification words it, rounding toward zero; the program calls
  \<open>Math_floor\<close>, and the two are compared below.
\<close>

fun spec_truncate :: "jsvalue \<Rightarrow> number" where
  "spec_truncate Undefined = NaN"
| "spec_truncate (Number (Fin r)) = Fin (of_int (if 0 \<le> r then \<lfloor>r\<rfloor> else \<lceil>r\<rceil>))"
| "spec_truncate (Number NaN) = NaN"
| "spec_truncate (Number PosInf) = PosInf"
| "spec_truncate (Number NegInf) = NegInf"

section \<open>States and environments for the examples\<close>

text \<open>
  A component that is ready: the model is loaded, the camera is mounted, no cycle is in
  flight, and one detection from an earlier cycle is on screen.
\<close>

definition ready :: app_state where
  "ready = \<lparr>session = Some TheSession, cameraRef = Some TheCamera,
     detections = [\<lparr>cls = Fin 0, confidence = Number (Fin 0.9),
        bbox = [Number (Fin 0.1), Number (Fin 0.1), Number (Fin 0.4), Number (Fin 0.4)]\<rparr>],
     modelLoading = False, error = None, isProcessing = False, calls = []\<rparr>"

definition env_ok :: env where
  "env_ok = \<lparr>takePictureAsync = Resolved ''photo.jpg'',
     manipulateAsync = (\<lambda>uri. Resolved (Some ''QUJD'')),
     atob = (\<lambda>b. Inr ''ABC''),
     run = (\<lambda>bytes. Resolved (Some [Fin 0.5, Fin 0.5, Fin 0.9, Fin 0.9, Fin 0.4, Fin 16]))\<rparr>"

definition env_no_image :: env where
  "env_no_image = env_ok\<lparr>manipulateAsync := (\<lambda>uri. Resolved None)\<rparr>"

definition env_no_output :: env where
  "env_no_output = env_ok\<lparr>run := (\<lambda>bytes. Resolved None)\<rparr>"

definition env_waiting :: env where
  "env_waiting = env_ok\<lparr>run := (\<lambda>bytes. Pending)\<rparr>"

definition env_rejecting :: env where
  "env_rejecting = env_ok\<lparr>takePictureAsync := Rejected (Error ''Camera is not running'')\<rparr>"

definition env_rejecting_null :: env where
  "env_rejecting_null = env_ok\<lparr>takePictureAsync := Rejected Nullish\<rparr>"

section \<open>The loop as a fold over its windows\<close>

lemmas examples = ready_def env_ok_def env_no_image_def env_no_output_def env_waiting_def
  env_rejecting_def env_rejecting_null_def

lemma real_less_iff_ceiling: "real i < x \<longleftrightarrow> i < nat \<lceil>x\<rceil>"
  by (metis less_ceiling_iff of_int_of_nat_eq zless_nat_eq_int_zless)

lemma loop_eq_fold:
  "loop out i st = fold (body out) [i..<nat \<lceil>numDetections out\<rceil>] st"
proof (induction out i st rule: loop.induct)
  case (1 out i st)
  show ?case
  proof (cases "real i < numDetections out")
    case True
    then have "i < nat \<lceil>numDetections out\<rceil>"
      by (simp add: real_less_iff_ceiling)
    then have "[i..<nat \<lceil>numDetections out\<rceil>] = i # [i + 1..<nat \<lceil>numDetections out\<rceil>]"
      by (simp add: upt_conv_Cons)
    with True "1.IH" show ?thesis
      by (subst loop.simps) simp
  next
    case False
    then have "\<not> i < nat \<lceil>numDetections out\<rceil>"
      by (simp add: real_less_iff_ceiling)
    with False show ?thesis
      by (subst loop.simps) simp
  qed
qed

lemma iterations_eq: "nat \<lceil>numDetections out\<rceil> = (length out + 5) div 6"
proof -
  have "\<lceil>real (length out) / 6\<rceil> = \<lceil>real_of_int (int (length out)) / real_of_int 6\<rceil>"
    by simp
  also have "\<dots> = - (- int (length out) div 6)"
    by (rule ceiling_divide_eq_div)
  also have "\<dots> = int ((length out + 5) div 6)"
    by (simp add: zdiv_int)
  finally show ?thesis
    by (simp add: numDetections_def valuesPerBox_def)
qed

lemma iterations_multiple:
  "length out mod 6 = 0 \<Longrightarrow> nat \<lceil>numDetections out\<rceil> = length out div 6"
  unfolding iterations_eq by presburger

lemma iterations_partial:
  "length out mod 6 \<noteq> 0 \<Longrightarrow> nat \<lceil>numDetections out\<rceil> = length out div 6 + 1"
  unfolding iterations_eq by presburger

lemma fst_fold_body:
  "fst (fold (body out) js st) =
     fst st @ map (\<lambda>i. detection_of out (i * valuesPerBox))
                  (filter (\<lambda>i. \<not> invalid_class (classId_of out (i * valuesPerBox))) js)"
  by (induction js arbitrary: st) (simp_all add: body_def Let_def)

lemma snd_fold_body:
  "snd (fold (body out) js st) = snd st @ concat (map (\<lambda>i. snd (body out i ([], []))) js)"
  by (induction js arbitrary: st) (simp_all add: body_def Let_def)

lemma decode_eq:
  "decode out =
     map (\<lambda>i. detection_of out (i * valuesPerBox))
         (filter (\<lambda>i. \<not> invalid_class (classId_of out (i * valuesPerBox)))
                 [0..<nat \<lceil>numDetections out\<rceil>])"
  by (simp add: decode_def loop_eq_fold fst_fold_body)

lemma decode_reads_eq:
  "decode_reads out =
     concat (map (\<lambda>i. snd (body out i ([], []))) [0..<nat \<lceil>numDetections out\<rceil>])"
  by (simp add: decode_reads_def loop_eq_fold snd_fold_body)

lemma length_CLASSES: "length CLASSES = 80"
  by (simp add: CLASSES_def)

lemma invalid_class_Fin: "invalid_class (Fin r) \<longleftrightarrow> r < 0 \<or> 80 \<le> r"
  by (auto simp add: invalid_class_def length_CLASSES)

lemma invalid_class_others:
  "\<not> invalid_class NaN" "invalid_class PosInf" "invalid_class NegInf"
  by (simp_all add: invalid_class_def)

section \<open>The example of the specification\<close>

text \<open>
  C8. The array of eighteen values
  \<^verbatim>\<open>[0.1,0.1,0.4,0.4,0.9,0, 0.5,0.5,0.9,0.9,0.4,16, 0.1,0.1,0.2,0.2,0.99,999]\<close>, decoded
  against the table of 80 labels, gives exactly two detections, of the classes 0 and 16
  in this order; the third window is dropped, its class index 999 being out of range.
\<close>

theorem decode_example:
  "length CLASSES = 80 \<and>
   decode [Fin 0.1, Fin 0.1, Fin 0.4, Fin 0.4, Fin 0.9, Fin 0,
           Fin 0.5, Fin 0.5, Fin 0.9, Fin 0.9, Fin 0.4, Fin 16,
           Fin 0.1, Fin 0.1, Fin 0.2, Fin 0.2, Fin 0.99, Fin 999] =
     [\<lparr>cls = Fin 0, confidence = Number (Fin 0.9),
        bbox = [Number (Fin 0.1), Number (Fin 0.1), Number (Fin 0.4), Number (Fin 0.4)]\<rparr>,
      \<lparr>cls = Fin 16, confidence = Number (Fin 0.4),
        bbox = [Number (Fin 0.5), Number (Fin 0.5), Number (Fin 0.9), Number (Fin 0.9)]\<rparr>] \<and>
   classId_of [Fin 0.1, Fin 0.1, Fin 0.4, Fin 0.4, Fin 0.9, Fin 0,
               Fin 0.5, Fin 0.5, Fin 0.9, Fin 0.9, Fin 0.4, Fin 16,
               Fin 0.1, Fin 0.1, Fin 0.2, Fin 0.2, Fin 0.99, Fin 999] (2 * valuesPerBox) = Fin 999 \<and>
   invalid_class (Fin 999)"
  by (simp add: length_CLASSES decode_eq iterations_eq upt_rec detection_of_def classId_of_def
      at_index_def valuesPerBox_def invalid_class_Fin)

section \<open>The classes of the detections\<close>

lemma valid_index_of_int: "valid_index (Fin (of_int z)) \<longleftrightarrow> 0 \<le> z \<and> z < 80"
  by (simp add: valid_index_def length_CLASSES)

lemma kept_class_valid_or_NaN:
  "\<not> invalid_class (Math_floor v) \<Longrightarrow> valid_index (Math_floor v) \<or> Math_floor v = NaN"
proof (cases v)
  case Undefined
  then show ?thesis by simp
next
  case (Number n)
  assume k: "\<not> invalid_class (Math_floor v)"
  show ?thesis
  proof (cases n)
    case (Fin r)
    with Number k have "\<not> (real_of_int \<lfloor>r\<rfloor> < 0 \<or> 80 \<le> real_of_int \<lfloor>r\<rfloor>)"
      by (simp add: invalid_class_Fin)
    then have "0 \<le> \<lfloor>r\<rfloor> \<and> \<lfloor>r\<rfloor> < 80"
      by linarith
    with Number Fin show ?thesis
      by (simp add: valid_index_of_int)
  next
    case NaN
    with Number show ?thesis by simp
  next
    case PosInf
    with Number k show ?thesis by (simp add: invalid_class_others)
  next
    case NegInf
    with Number k show ?thesis by (simp add: invalid_class_others)
  qed
qed

lemma decode_class_valid_or_NaN:
  "d \<in> set (decode out) \<Longrightarrow> valid_index (cls d) \<or> cls d = NaN"
  by (auto simp add: decode_eq detection_of_def classId_of_def dest: kept_class_valid_or_NaN)

text \<open>
  C1. The claim: an array whose length is a multiple of 6 is cut into length/6 windows of
  6 values; a window is left out exactly when its class index is negative or at least
  the length of the label table (80); every other window gives one detection, in the
  order of the array, and the class of that detection is a valid index into the label
  table.

  The program does not keep the last part. The test before \<^verbatim>\<open>continue\<close> is false for a
  class value that is NaN, so the window is kept, and the class stored is NaN, for which
  the label table has no entry. By \<open>decode_class_valid_or_NaN\<close> this is the only way
  in which a stored class fails to be a valid index.
\<close>

theorem decode_keeps_NaN_class:
  "decode [Fin 0.1, Fin 0.1, Fin 0.4, Fin 0.4, Fin 0.9, NaN] =
     [\<lparr>cls = NaN, confidence = Number (Fin 0.9),
        bbox = [Number (Fin 0.1), Number (Fin 0.1), Number (Fin 0.4), Number (Fin 0.4)]\<rparr>] \<and>
   CLASSES_at NaN = None \<and> \<not> valid_index NaN"
  by (simp add: decode_eq iterations_eq upt_rec detection_of_def classId_of_def
      at_index_def valuesPerBox_def invalid_class_others valid_index_def)

section \<open>An absent and an empty output array\<close>

text \<open>
  C4. When the output array of the inference session is absent, decoding signals the
  error whose message is \<^verbatim>\<open>No detection results\<close> (the \<^verbatim>\<open>NoDetectionData\<close> of the
  specification); when the array is there and empty, decoding succeeds with the empty
  list of detections.
\<close>

theorem decode_results_absent_or_empty:
  "decode_results None = Inl ''No detection results'' \<and> decode_results (Some []) = Inr []"
  by (simp add: decode_results_def decode_eq iterations_eq)

section \<open>The class index is a floor\<close>

text \<open>
  C6. The claim: for every window, the class index that is compared with the bounds is
  the sixth value of the window truncated to an integer, that is rounded toward zero.
  At the sixth value \<open>-0.5\<close> the program compares \<open>-1\<close>, which is below the bounds,
  and drops the window; the truncation is \<open>0\<close>, which is within them.
\<close>

theorem floor_is_not_truncation:
  "classId_of [Fin 0.1, Fin 0.1, Fin 0.4, Fin 0.4, Fin 0.9, Fin (- 0.5)] (0 * valuesPerBox) = Fin (- 1) \<and>
   spec_truncate (at_index [Fin 0.1, Fin 0.1, Fin 0.4, Fin 0.4, Fin 0.9, Fin (- 0.5)] 5) = Fin 0 \<and>
   invalid_class (Fin (- 1)) \<and> \<not> invalid_class (Fin 0) \<and>
   decode [Fin 0.1, Fin 0.1, Fin 0.4, Fin 0.4, Fin 0.9, Fin (- 0.5)] = []"
proof -
  have "\<lceil>- (1 / 2 :: real)\<rceil> = 0"
    by (simp add: ceiling_def)
  then show ?thesis
    by (simp add: decode_eq iterations_eq upt_rec detection_of_def classId_of_def
        at_index_def valuesPerBox_def invalid_class_Fin)
qed

text \<open>
  C6, as amended. For every window whose sixth value is a finite number \<open>v\<close>, the class
  index that is compared with the bounds, and stored in the detection, is \<open>v\<close> rounded
  down to an integer (toward negative infinity). The window is dropped exactly when
  \<open>v < 0\<close> or \<open>80 \<le> v\<close>, where truncation would drop it when \<open>v \<le> -1\<close> or \<open>80 \<le> v\<close>;
  for \<open>v\<close> not negative the class index is the truncation of \<open>v\<close>.
\<close>

theorem class_index_is_floor:
  assumes "at_index out (i * valuesPerBox + 5) = Number (Fin v)"
  shows "classId_of out (i * valuesPerBox) = Fin (of_int \<lfloor>v\<rfloor>) \<and>
         (invalid_class (classId_of out (i * valuesPerBox)) \<longleftrightarrow> v < 0 \<or> 80 \<le> v) \<and>
         fst (body out i st) =
           (if v < 0 \<or> 80 \<le> v then fst st
            else fst st @ [detection_of out (i * valuesPerBox)]) \<and>
         cls (detection_of out (i * valuesPerBox)) = Fin (of_int \<lfloor>v\<rfloor>) \<and>
         (invalid_class (spec_truncate (Number (Fin v))) \<longleftrightarrow> v \<le> - 1 \<or> 80 \<le> v) \<and>
         (0 \<le> v \<longrightarrow> classId_of out (i * valuesPerBox) = spec_truncate (Number (Fin v)))"
proof -
  have c: "classId_of out (i * valuesPerBox) = Fin (of_int \<lfloor>v\<rfloor>)"
    using assms by (simp add: classId_of_def)
  have fl0: "real_of_int \<lfloor>v\<rfloor> < 0 \<longleftrightarrow> v < 0"
    by (simp add: floor_less_iff)
  have fl80: "80 \<le> real_of_int \<lfloor>v\<rfloor> \<longleftrightarrow> 80 \<le> v"
    using le_floor_iff [of 80 v] by simp
  have inv: "invalid_class (classId_of out (i * valuesPerBox)) \<longleftrightarrow> v < 0 \<or> 80 \<le> v"
    by (simp add: c invalid_class_Fin fl0 fl80)
  have ce0: "real_of_int \<lceil>v\<rceil> < 0 \<longleftrightarrow> v \<le> - 1"
    using ceiling_less_iff [of v 0] by simp
  have ce80: "v < 0 \<Longrightarrow> \<not> 80 \<le> real_of_int \<lceil>v\<rceil>"
    using ceiling_le_iff [of v 0] by simp
  have tr: "invalid_class (spec_truncate (Number (Fin v))) \<longleftrightarrow> v \<le> - 1 \<or> 80 \<le> v"
  proof (cases "0 \<le> v")
    case True
    then show ?thesis
      by (simp add: invalid_class_Fin fl0 fl80)
  next
    case False
    then show ?thesis
      using ce80 by (simp add: invalid_class_Fin ce0)
  qed
  show ?thesis
    using c inv tr by (simp add: body_def Let_def detection_of_def)
qed

theorem class_index_is_floor_witness:
  "at_index [Fin 0.5, Fin 0.5, Fin 0.9, Fin 0.9, Fin 0.4, Fin 16.7] (0 * valuesPerBox + 5) =
     Number (Fin 16.7) \<and>
   classId_of [Fin 0.5, Fin 0.5, Fin 0.9, Fin 0.9, Fin 0.4, Fin 16.7] (0 * valuesPerBox) = Fin 16 \<and>
   \<not> invalid_class (classId_of [Fin 0.5, Fin 0.5, Fin 0.9, Fin 0.9, Fin 0.4, Fin 16.7]
        (0 * valuesPerBox)) \<and>
   at_index [Fin 0.5, Fin 0.5, Fin 0.9, Fin 0.9, Fin 0.4, Fin (- 0.5)] (0 * valuesPerBox + 5) =
     Number (Fin (- 0.5)) \<and>
   classId_of [Fin 0.5, Fin 0.5, Fin 0.9, Fin 0.9, Fin 0.4, Fin (- 0.5)] (0 * valuesPerBox) =
     Fin (- 1) \<and>
   invalid_class (classId_of [Fin 0.5, Fin 0.5, Fin 0.9, Fin 0.9, Fin 0.4, Fin (- 0.5)]
        (0 * valuesPerBox))"
proof -
  have kept: "at_index [Fin 0.5, Fin 0.5, Fin 0.9, Fin 0.9, Fin 0.4, Fin 16.7]
      (0 * valuesPerBox + 5) = Number (Fin 16.7)"
    by (simp add: at_index_def valuesPerBox_def)
  have dropped: "at_index [Fin 0.5, Fin 0.5, Fin 0.9, Fin 0.9, Fin 0.4, Fin (- 0.5)]
      (0 * valuesPerBox + 5) = Number (Fin (- 0.5))"
    by (simp add: at_index_def valuesPerBox_def)
  have "\<lfloor>- (1 / 2 :: real)\<rfloor> = - 1"
    by linarith
  then show ?thesis
    using kept dropped class_index_is_floor [OF kept, of "([], [])"]
      class_index_is_floor [OF dropped, of "([], [])"]
    by (simp add: invalid_class_Fin)
qed

section \<open>No threshold on the confidence\<close>

lemma at_index_update_other:
  "k \<noteq> k' \<Longrightarrow> at_index (out[k := c]) k' = at_index out k'"
  by (simp add: at_index_def)

lemma numDetections_update: "numDetections (out[k := c]) = numDetections out"
  by (simp add: numDetections_def)

lemma classId_of_update_confidence:
  "classId_of (out[j * 6 + 4 := c]) (i * valuesPerBox) = classId_of out (i * valuesPerBox)"
proof -
  have "j * 6 + 4 \<noteq> i * 6 + 5"
    by presburger
  then show ?thesis
    by (simp add: classId_of_def valuesPerBox_def at_index_update_other)
qed

lemma bbox_update_confidence:
  "bbox (detection_of (out[j * 6 + 4 := c]) (i * valuesPerBox)) =
   bbox (detection_of out (i * valuesPerBox))"
proof -
  have "j * 6 + 4 \<noteq> i * 6" "j * 6 + 4 \<noteq> i * 6 + 1" "j * 6 + 4 \<noteq> i * 6 + 2"
    "j * 6 + 4 \<noteq> i * 6 + 3"
    by presburger+
  then show ?thesis
    by (simp add: detection_of_def valuesPerBox_def at_index_update_other)
qed

lemma decode_multiple:
  assumes "length out mod 6 = 0"
  shows "decode out =
     map (\<lambda>i. \<lparr>cls = Math_floor (Number (out ! (i * 6 + 5))),
               confidence = Number (out ! (i * 6 + 4)),
               bbox = [Number (out ! (i * 6)), Number (out ! (i * 6 + 1)),
                       Number (out ! (i * 6 + 2)), Number (out ! (i * 6 + 3))]\<rparr>)
         (filter (\<lambda>i. \<not> invalid_class (Math_floor (Number (out ! (i * 6 + 5)))))
                 [0..<length out div 6])"
proof -
  have inside: "i * 6 + k < length out" if "i < length out div 6" "k < 6" for i k
  proof -
    from that(1) have "(i + 1) * 6 \<le> length out div 6 * 6"
      by (intro mult_le_mono1) simp
    also have "\<dots> \<le> length out"
      by simp
    finally show ?thesis
      using that(2) by simp
  qed
  have cl: "classId_of out (i * valuesPerBox) = Math_floor (Number (out ! (i * 6 + 5)))"
    if "i < length out div 6" for i
    using inside [OF that, of 5] by (simp add: classId_of_def valuesPerBox_def at_index_def)
  have det: "detection_of out (i * valuesPerBox) =
      \<lparr>cls = Math_floor (Number (out ! (i * 6 + 5))),
       confidence = Number (out ! (i * 6 + 4)),
       bbox = [Number (out ! (i * 6)), Number (out ! (i * 6 + 1)),
               Number (out ! (i * 6 + 2)), Number (out ! (i * 6 + 3))]\<rparr>"
    if "i < length out div 6" for i
    using inside [OF that, of 5] inside [OF that, of 4] inside [OF that, of 0]
      inside [OF that, of 1] inside [OF that, of 2] inside [OF that, of 3] cl [OF that]
    by (simp add: detection_of_def valuesPerBox_def at_index_def)
  have filt: "filter (\<lambda>i. \<not> invalid_class (classId_of out (i * valuesPerBox))) [0..<length out div 6] =
        filter (\<lambda>i. \<not> invalid_class (Math_floor (Number (out ! (i * 6 + 5))))) [0..<length out div 6]"
    by (rule filter_cong) (simp_all add: cl)
  show ?thesis
    by (simp add: decode_eq iterations_multiple [OF assms] filt det)
qed

text \<open>
  C7. Decoding applies no threshold to the confidence. For an array whose length is a
  multiple of 6, the detections are those of the windows that pass the test of the
  class, in order; the confidence of each is the fifth value of its window and its box
  the first four values, as they are. Which windows are kept does not depend on any
  confidence: putting any number in place of the fifth value of any window leaves the
  classes and the boxes of the detections as they were.
\<close>

theorem no_confidence_threshold:
  assumes "length out mod 6 = 0"
  shows "decode out =
     map (\<lambda>i. \<lparr>cls = Math_floor (Number (out ! (i * 6 + 5))),
               confidence = Number (out ! (i * 6 + 4)),
               bbox = [Number (out ! (i * 6)), Number (out ! (i * 6 + 1)),
                       Number (out ! (i * 6 + 2)), Number (out ! (i * 6 + 3))]\<rparr>)
         (filter (\<lambda>i. \<not> invalid_class (Math_floor (Number (out ! (i * 6 + 5)))))
                 [0..<length out div 6]) \<and>
     map cls (decode (out[j * 6 + 4 := c])) = map cls (decode out) \<and>
     map bbox (decode (out[j * 6 + 4 := c])) = map bbox (decode out)"
proof -
  have "map cls (decode (out[j * 6 + 4 := c])) = map cls (decode out)"
    by (simp add: decode_eq numDetections_update classId_of_update_confidence detection_of_def
        comp_def)
  moreover have "map bbox (decode (out[j * 6 + 4 := c])) = map bbox (decode out)"
    by (simp add: decode_eq numDetections_update classId_of_update_confidence
        bbox_update_confidence comp_def)
  ultimately show ?thesis
    using decode_multiple [OF assms] by simp
qed

theorem no_confidence_threshold_witness:
  "length [Fin 0.5, Fin 0.5, Fin 0.9, Fin 0.9, Fin 0.4, Fin 16] mod 6 = 0 \<and>
   decode [Fin 0.5, Fin 0.5, Fin 0.9, Fin 0.9, Fin 0.4, Fin 16] =
     [\<lparr>cls = Fin 16, confidence = Number (Fin 0.4),
        bbox = [Number (Fin 0.5), Number (Fin 0.5), Number (Fin 0.9), Number (Fin 0.9)]\<rparr>] \<and>
   map cls (decode [Fin 0.5, Fin 0.5, Fin 0.9, Fin 0.9, Fin 0, Fin 16]) = [Fin 16]"
  using no_confidence_threshold [of "[Fin 0.5, Fin 0.5, Fin 0.9, Fin 0.9, Fin 0.4, Fin 16]" 0 "Fin 0"]
  by (simp add: upt_rec invalid_class_Fin)

section \<open>The reads of the decoder\<close>

lemma reads_body:
  "snd (body out i ([], [])) =
     [i * 6 + 4, i * 6 + 5] @
     (if invalid_class (classId_of out (i * valuesPerBox)) then []
      else [i * 6, i * 6 + 1, i * 6 + 2, i * 6 + 3])"
  by (simp add: body_def Let_def valuesPerBox_def)

lemma reads_body_below: "k \<in> set (snd (body out i ([], []))) \<Longrightarrow> k < (i + 1) * 6"
  by (auto simp add: reads_body split: if_splits)

lemma class_read_body: "i * 6 + 5 \<in> set (snd (body out i ([], [])))"
  by (simp add: reads_body)

lemma class_reads_body:
  "filter (\<lambda>k. k mod 6 = 5) (snd (body out i ([], []))) = [i * 6 + 5]"
  by (simp add: reads_body mod_Suc)

lemma class_reads_windows:
  "map (\<lambda>k. k div 6) (filter (\<lambda>k. k mod 6 = 5) (concat (map (\<lambda>i. snd (body out i ([], []))) js))) = js"
  by (induction js) (simp_all add: class_reads_body)

lemma decode_reads_below:
  assumes "k \<in> set (decode_reads out)"
  shows "k < nat \<lceil>numDetections out\<rceil> * 6"
proof -
  from assms obtain i where i: "i < nat \<lceil>numDetections out\<rceil>"
    and k: "k \<in> set (snd (body out i ([], [])))"
    by (auto simp add: decode_reads_eq)
  from k have "k < (i + 1) * 6"
    by (rule reads_body_below)
  also from i have "(i + 1) * 6 \<le> nat \<lceil>numDetections out\<rceil> * 6"
    by (intro mult_le_mono1) simp
  finally show ?thesis .
qed

text \<open>
  C9. When the length of the output array is a multiple of 6, every read of the decoder
  is within the array. When it is not, the bound \<^verbatim>\<open>length / 6\<close> of the loop is not a
  whole number, the loop makes one pass for each window from 0 to the integer part of
  length/6, that is the ceiling of length/6 passes, and the last pass reads the class
  of its window past the end of the array.
\<close>

theorem reads_in_bounds:
  "(length out mod 6 = 0 \<longrightarrow> (\<forall>k \<in> set (decode_reads out). k < length out)) \<and>
   (length out mod 6 \<noteq> 0 \<longrightarrow>
      real_of_int \<lfloor>numDetections out\<rfloor> < numDetections out \<and>
      nat \<lceil>numDetections out\<rceil> = length out div 6 + 1 \<and>
      map (\<lambda>k. k div 6) (filter (\<lambda>k. k mod 6 = 5) (decode_reads out)) =
        [0..<nat \<lceil>numDetections out\<rceil>] \<and>
      (nat \<lceil>numDetections out\<rceil> - 1) * 6 + 5 \<in> set (decode_reads out) \<and>
      length out \<le> (nat \<lceil>numDetections out\<rceil> - 1) * 6 + 5)"
proof (intro conjI impI ballI)
  fix k
  assume m: "length out mod 6 = 0" and "k \<in> set (decode_reads out)"
  then have "k < length out div 6 * 6"
    using decode_reads_below [of k out] by (simp add: iterations_multiple)
  also have "\<dots> = length out"
    using m by presburger
  finally show "k < length out" .
next
  assume p: "length out mod 6 \<noteq> 0"
  have n: "nat \<lceil>numDetections out\<rceil> = length out div 6 + 1"
    using p by (rule iterations_partial)
  show "nat \<lceil>numDetections out\<rceil> = length out div 6 + 1"
    by (rule n)
  have "numDetections out \<notin> \<int>"
  proof
    assume "numDetections out \<in> \<int>"
    then have "\<lceil>numDetections out\<rceil> = \<lfloor>numDetections out\<rfloor>"
      by (simp add: ceiling_altdef)
    moreover have "\<lfloor>numDetections out\<rfloor> = int (length out div 6)"
      using floor_divide_of_nat_eq [of "length out" 6, where ?'a = real]
      by (simp add: numDetections_def valuesPerBox_def)
    ultimately show False
      using n by simp
  qed
  then show "real_of_int \<lfloor>numDetections out\<rfloor> < numDetections out"
    by (metis Ints_of_int of_int_floor_le order_le_less)
  show "map (\<lambda>k. k div 6) (filter (\<lambda>k. k mod 6 = 5) (decode_reads out)) =
        [0..<nat \<lceil>numDetections out\<rceil>]"
    by (simp only: decode_reads_eq class_reads_windows)
  have "length out div 6 < nat \<lceil>numDetections out\<rceil>"
    using n by simp
  then have "length out div 6 * 6 + 5 \<in> set (decode_reads out)"
    using class_read_body [of "length out div 6" out] by (auto simp add: decode_reads_eq)
  then show "(nat \<lceil>numDetections out\<rceil> - 1) * 6 + 5 \<in> set (decode_reads out)"
    by (simp add: n)
  show "length out \<le> (nat \<lceil>numDetections out\<rceil> - 1) * 6 + 5"
    unfolding n by presburger
qed

theorem reads_in_bounds_witness:
  "length [Fin 0.5, Fin 0.5, Fin 0.9, Fin 0.9, Fin 0.4, Fin 16] mod 6 = 0 \<and>
   list_all (\<lambda>k. k < length [Fin 0.5, Fin 0.5, Fin 0.9, Fin 0.9, Fin 0.4, Fin 16])
     (decode_reads [Fin 0.5, Fin 0.5, Fin 0.9, Fin 0.9, Fin 0.4, Fin 16]) \<and>
   length [Fin 0.5, Fin 0.5, Fin 0.9, Fin 0.9, Fin 0.4, Fin 16, Fin 1] mod 6 \<noteq> 0 \<and>
   numDetections [Fin 0.5, Fin 0.5, Fin 0.9, Fin 0.9, Fin 0.4, Fin 16, Fin 1] = 7 / 6 \<and>
   11 \<in> set (decode_reads [Fin 0.5, Fin 0.5, Fin 0.9, Fin 0.9, Fin 0.4, Fin 16, Fin 1]) \<and>
   at_index [Fin 0.5, Fin 0.5, Fin 0.9, Fin 0.9, Fin 0.4, Fin 16, Fin 1] 11 = Undefined"
  using reads_in_bounds [of "[Fin 0.5, Fin 0.5, Fin 0.9, Fin 0.9, Fin 0.4, Fin 16]"]
    reads_in_bounds [of "[Fin 0.5, Fin 0.5, Fin 0.9, Fin 0.9, Fin 0.4, Fin 16, Fin 1]"]
  by (simp add: list_all_iff numDetections_def valuesPerBox_def at_index_def)

section \<open>The rounding of the operators\<close>

text \<open>
  \<open>binade\<close> gives the exponent of its argument, and a rounded value is within half
  of the spacing of the floats at that exponent from the exact one.
\<close>

lemma bit_length_0: "bit_length 0 = 0"
  by (subst bit_length.simps) simp

lemma bit_length_1: "bit_length (Suc 0) = Suc 0"
  by (subst bit_length.simps) (simp add: bit_length_0)

lemma bit_length_bounds:
  "0 < n \<Longrightarrow> 2 ^ (bit_length n - 1) \<le> n \<and> n < 2 ^ bit_length n"
proof (induction n rule: bit_length.induct)
  case (1 n)
  show ?case
  proof (cases "n div 2 = 0")
    case True
    with "1.prems" have "n = 1"
      by presburger
    then show ?thesis
      by (simp add: bit_length_1)
  next
    case False
    then have pos: "0 < n div 2"
      by simp
    with "1.IH" "1.prems" have ih: "2 ^ (bit_length (n div 2) - 1) \<le> n div 2"
      "n div 2 < 2 ^ bit_length (n div 2)"
      by simp_all
    have bl: "bit_length n = Suc (bit_length (n div 2))"
      using "1.prems" by (subst bit_length.simps) simp
    have "0 < bit_length (n div 2)"
      using pos by (subst bit_length.simps) simp
    then have "2 ^ (bit_length n - 1) = 2 * (2::nat) ^ (bit_length (n div 2) - 1)"
      by (cases "bit_length (n div 2)") (simp_all add: bl)
    also have "\<dots> \<le> 2 * (n div 2)"
      using ih(1) by simp
    also have "\<dots> \<le> n"
      by simp
    finally have lower: "2 ^ (bit_length n - 1) \<le> n" .
    have "n < 2 * (n div 2) + 2"
      by presburger
    also have "\<dots> \<le> 2 * 2 ^ bit_length (n div 2)"
      using ih(2) by simp
    finally have "n < 2 ^ bit_length n"
      by (simp add: bl)
    with lower show ?thesis
      by simp
  qed
qed

lemma pow2_pos: "0 < pow2 k"
  by (simp add: pow2_def)

lemma pow2_of_nat: "pow2 (int k) = 2 ^ k"
  by (simp add: pow2_def)

lemma pow2_neg: "pow2 (- int k) = 1 / 2 ^ k"
  by (cases k) (simp_all add: pow2_def nat_add_distrib)

lemma binade_bounds:
  assumes "0 < a"
  shows "pow2 (binade a) \<le> a \<and> a < pow2 (binade a + 1)"
proof (cases "1 \<le> a")
  case True
  define n where "n = nat \<lfloor>a\<rfloor>"
  have "1 \<le> \<lfloor>a\<rfloor>"
    using True by linarith
  then have rn: "real n = of_int \<lfloor>a\<rfloor>" and n0: "0 < n"
    by (simp_all add: n_def)
  have n: "0 < n" "real n \<le> a" "a < real n + 1"
    unfolding rn using n0 by (simp, linarith, linarith)
  from bit_length_bounds [OF n(1)] have b: "2 ^ (bit_length n - 1) \<le> n" "n < 2 ^ bit_length n"
    by simp_all
  have pos: "0 < bit_length n"
    using n(1) by (subst bit_length.simps) simp
  then have e: "binade a = int (bit_length n - 1)"
    using True by (simp add: binade_def n_def)
  have "pow2 (binade a) = 2 ^ (bit_length n - 1)"
    by (simp add: e pow2_of_nat)
  also have "\<dots> \<le> real n"
    using b(1) by (metis of_nat_le_iff of_nat_numeral of_nat_power)
  finally have lower: "pow2 (binade a) \<le> a"
    using n(2) by simp
  have "binade a + 1 = int (bit_length n)"
    using pos by (simp add: e)
  then have "pow2 (binade a + 1) = 2 ^ bit_length n"
    by (simp add: pow2_of_nat)
  moreover have "real n + 1 \<le> 2 ^ bit_length n"
    using b(2) by (metis Suc_leI of_nat_Suc of_nat_le_iff of_nat_numeral of_nat_power add.commute)
  ultimately show ?thesis
    using lower n(3) by simp
next
  case False
  define y where "y = 1 / a"
  define m where "m = nat \<lceil>y\<rceil> - 1"
  have y: "1 < y"
    using assms False by (simp add: y_def)
  define z where "z = \<lceil>y\<rceil>"
  have z: "2 \<le> z" "real_of_int z - 1 < y" "y \<le> real_of_int z"
    unfolding z_def using y by linarith+
  have "m = nat (z - 1)"
    using z(1) by (simp add: m_def z_def [symmetric])
  then have rm: "real m = real_of_int z - 1" and m0: "0 < m"
    using z(1) by simp_all
  have m: "0 < m" "real m < y" "y \<le> real m + 1"
    unfolding rm using m0 z by simp_all
  from bit_length_bounds [OF m(1)] have b: "2 ^ (bit_length m - 1) \<le> m" "m < 2 ^ bit_length m"
    by simp_all
  have pos: "0 < bit_length m"
    using m(1) by (subst bit_length.simps) simp
  have e: "binade a = - int (bit_length m)"
    using False by (simp add: binade_def m_def y_def)
  have "real m + 1 \<le> 2 ^ bit_length m"
    using b(2) by (metis Suc_leI of_nat_Suc of_nat_le_iff of_nat_numeral of_nat_power add.commute)
  with m(3) have "y \<le> 2 ^ bit_length m"
    by simp
  then have "1 / 2 ^ bit_length m \<le> a"
    using assms by (simp add: y_def field_simps)
  then have lower: "pow2 (binade a) \<le> a"
    by (simp add: e pow2_neg)
  have "(2::real) ^ (bit_length m - 1) \<le> real m"
    using b(1) by (metis of_nat_le_iff of_nat_numeral of_nat_power)
  with m(2) have "2 ^ (bit_length m - 1) < y"
    by linarith
  then have "a < 1 / 2 ^ (bit_length m - 1)"
    using assms by (simp add: y_def field_simps)
  moreover have "binade a + 1 = - int (bit_length m - 1)"
    using pos by (simp add: e)
  ultimately have "a < pow2 (binade a + 1)"
    by (simp add: pow2_neg)
  with lower show ?thesis
    by simp
qed

lemma round_half_even_near: "\<bar>of_int (round_half_even q) - q\<bar> \<le> 1 / 2"
  by (simp add: round_half_even_def Let_def; linarith?)

lemma round64_error:
  assumes "round64 x = Fin v"
  shows "\<bar>v - x\<bar> \<le> pow2 (max (binade \<bar>x\<bar>) (- 1022) - 52) / 2"
proof (cases "x = 0")
  case True
  with assms show ?thesis
    using pow2_pos [of "max (binade \<bar>x\<bar>) (- 1022) - 52"] by (simp add: round64_def)
next
  case False
  define u where "u = pow2 (max (binade \<bar>x\<bar>) (- 1022) - 52)"
  have u: "0 < u"
    by (simp add: u_def pow2_pos)
  from assms False have v: "v = of_int (round_half_even (x / u)) * u"
    by (simp add: round64_def Let_def u_def split: if_splits)
  have "v - x = (of_int (round_half_even (x / u)) - x / u) * u"
    using u by (simp add: v field_simps)
  then have "\<bar>v - x\<bar> = \<bar>of_int (round_half_even (x / u)) - x / u\<bar> * u"
    using u by (simp add: abs_mult)
  also have "\<dots> \<le> 1 / 2 * u"
    using u round_half_even_near [of "x / u"] by (intro mult_right_mono) simp_all
  finally show ?thesis
    by (simp add: u_def)
qed

lemma round64_0: "round64 0 = Fin 0"
  by (simp add: round64_def)

lemma round64_1: "round64 1 = Fin 1"
  by code_simp

lemma round64_representable: "representable x \<Longrightarrow> round64 x = Fin x"
  by (simp add: representable_def)

lemma projectBox_Fin:
  "projectBox [Number (Fin x1), Number (Fin y1), Number (Fin x2), Number (Fin y2)] (Fin W) (Fin H) =
     \<lparr>boxX = round64 (x1 * W), boxY = round64 (y1 * H),
      boxWidth = js_times (round64 (x2 - x1)) (Fin W),
      boxHeight = js_times (round64 (y2 - y1)) (Fin H)\<rparr>"
  by (simp add: projectBox_def element_def Let_def)

section \<open>The projection to screen space\<close>

text \<open>
  C2. The claim: the projection is the linear map that takes a box \<open>[x1, y1, x2, y2]\<close>
  and a viewport of width \<open>W\<close> and height \<open>H\<close> to \<open>x = x1 * W\<close>, \<open>y = y1 * H\<close>,
  \<open>width = (x2 - x1) * W\<close> and \<open>height = (y2 - y1) * H\<close>, exactly, for every box and
  viewport. The program computes each difference and each product in 64-bit floats. For
  the box \<open>[0.1, 0.25, 0.5, 0.75]\<close>, whose first entry is the 32-bit float nearest to
  0.1, and the viewport 392.72727272727275 by 800, its \<open>x\<close> and its \<open>width\<close> are not
  the exact products.
\<close>

theorem projection_is_rounded:
  "projectBox [Number (Fin (13421773 / 134217728)), Number (Fin (1 / 4)), Number (Fin (1 / 2)),
       Number (Fin (3 / 4))] (Fin (1727232811633571 / 4398046511104)) (Fin 800) =
     \<lparr>boxX = Fin (2763572539794153 / 70368744177664), boxY = Fin 200,
      boxWidth = Fin (690893122079651 / 4398046511104), boxHeight = Fin 400\<rparr> \<and>
   (2763572539794153 / 70368744177664 :: real) \<noteq>
     13421773 / 134217728 * (1727232811633571 / 4398046511104) \<and>
   (690893122079651 / 4398046511104 :: real) \<noteq>
     (1 / 2 - 13421773 / 134217728) * (1727232811633571 / 4398046511104)"
proof -
  have "round64 (13421773 / 134217728 * (1727232811633571 / 4398046511104)) =
      Fin (2763572539794153 / 70368744177664)"
    by code_simp
  moreover have "round64 (1 / 4 * 800) = Fin 200"
    by code_simp
  moreover have "round64 (1 / 2 - 13421773 / 134217728) = Fin (53687091 / 134217728)"
    by code_simp
  moreover have "round64 (53687091 / 134217728 * (1727232811633571 / 4398046511104)) =
      Fin (690893122079651 / 4398046511104)"
    by code_simp
  moreover have "round64 (3 / 4 - 1 / 4) = Fin (1 / 2)"
    by code_simp
  moreover have "round64 (1 / 2 * 800) = Fin 400"
    by code_simp
  ultimately show ?thesis
    by (simp add: projectBox_Fin)
qed

text \<open>
  C2, as amended. For every box and viewport of finite numbers, \<open>x\<close> and \<open>y\<close> are the
  products \<open>x1 * W\<close> and \<open>y1 * H\<close> rounded to the nearest 64-bit float, and \<open>width\<close> and
  \<open>height\<close> are the rounded products of the rounded differences \<open>x2 - x1\<close> and
  \<open>y2 - y1\<close> with \<open>W\<close> and \<open>H\<close>; nothing is clamped to the viewport. The result is
  the exact linear map whenever the exact differences and products are 64-bit floats.
  So the box \<open>[0, 0, 1, 1]\<close> goes to the whole viewport, and the box
  \<open>[-0.5, 0, 0.5, 0.5]\<close> in a viewport of 100 by 100 goes to \<open>x = -50\<close>, \<open>y = 0\<close>,
  \<open>width = 100\<close>, \<open>height = 50\<close>.
\<close>

theorem projectBox_rounded:
  "projectBox [Number (Fin x1), Number (Fin y1), Number (Fin x2), Number (Fin y2)] (Fin W) (Fin H) =
     \<lparr>boxX = round64 (x1 * W), boxY = round64 (y1 * H),
      boxWidth = js_times (round64 (x2 - x1)) (Fin W),
      boxHeight = js_times (round64 (y2 - y1)) (Fin H)\<rparr> \<and>
   (representable (x1 * W) \<and> representable (y1 * H) \<and>
    representable (x2 - x1) \<and> representable (y2 - y1) \<and>
    representable ((x2 - x1) * W) \<and> representable ((y2 - y1) * H) \<longrightarrow>
      projectBox [Number (Fin x1), Number (Fin y1), Number (Fin x2), Number (Fin y2)]
          (Fin W) (Fin H) =
        \<lparr>boxX = Fin (x1 * W), boxY = Fin (y1 * H),
         boxWidth = Fin ((x2 - x1) * W), boxHeight = Fin ((y2 - y1) * H)\<rparr>) \<and>
   (representable W \<and> representable H \<longrightarrow>
      projectBox [Number (Fin 0), Number (Fin 0), Number (Fin 1), Number (Fin 1)] (Fin W) (Fin H) =
        \<lparr>boxX = Fin 0, boxY = Fin 0, boxWidth = Fin W, boxHeight = Fin H\<rparr>) \<and>
   projectBox [Number (Fin (- 0.5)), Number (Fin 0), Number (Fin 0.5), Number (Fin 0.5)]
       (Fin 100) (Fin 100) =
     \<lparr>boxX = Fin (- 50), boxY = Fin 0, boxWidth = Fin 100, boxHeight = Fin 50\<rparr>"
proof (intro conjI impI)
  show "projectBox [Number (Fin x1), Number (Fin y1), Number (Fin x2), Number (Fin y2)] (Fin W) (Fin H) =
     \<lparr>boxX = round64 (x1 * W), boxY = round64 (y1 * H),
      boxWidth = js_times (round64 (x2 - x1)) (Fin W),
      boxHeight = js_times (round64 (y2 - y1)) (Fin H)\<rparr>"
    by (rule projectBox_Fin)
next
  assume "representable (x1 * W) \<and> representable (y1 * H) \<and>
    representable (x2 - x1) \<and> representable (y2 - y1) \<and>
    representable ((x2 - x1) * W) \<and> representable ((y2 - y1) * H)"
  then show "projectBox [Number (Fin x1), Number (Fin y1), Number (Fin x2), Number (Fin y2)]
          (Fin W) (Fin H) =
        \<lparr>boxX = Fin (x1 * W), boxY = Fin (y1 * H),
         boxWidth = Fin ((x2 - x1) * W), boxHeight = Fin ((y2 - y1) * H)\<rparr>"
    by (simp add: projectBox_Fin round64_representable)
next
  assume "representable W \<and> representable H"
  then show "projectBox [Number (Fin 0), Number (Fin 0), Number (Fin 1), Number (Fin 1)]
        (Fin W) (Fin H) =
      \<lparr>boxX = Fin 0, boxY = Fin 0, boxWidth = Fin W, boxHeight = Fin H\<rparr>"
    by (simp add: projectBox_Fin round64_0 round64_1 round64_representable)
next
  have "round64 (- 50) = Fin (- 50)" "round64 100 = Fin 100" "round64 50 = Fin 50"
    "round64 (1 / 2) = Fin (1 / 2)"
    by code_simp+
  then show "projectBox [Number (Fin (- 0.5)), Number (Fin 0), Number (Fin 0.5), Number (Fin 0.5)]
       (Fin 100) (Fin 100) =
     \<lparr>boxX = Fin (- 50), boxY = Fin 0, boxWidth = Fin 100, boxHeight = Fin 50\<rparr>"
    by (simp add: projectBox_Fin round64_0 round64_1)
qed

theorem projectBox_rounded_witness:
  "representable (1727232811633571 / 4398046511104) \<and> representable 800 \<and>
   projectBox [Number (Fin 0), Number (Fin 0), Number (Fin 1), Number (Fin 1)]
       (Fin (1727232811633571 / 4398046511104)) (Fin 800) =
     \<lparr>boxX = Fin 0, boxY = Fin 0, boxWidth = Fin (1727232811633571 / 4398046511104),
      boxHeight = Fin 800\<rparr> \<and>
   representable (1 / 4 * 400) \<and> representable (3 / 4 - 1 / 4) \<and>
   representable ((3 / 4 - 1 / 4) * 400) \<and>
   projectBox [Number (Fin (1 / 4)), Number (Fin (1 / 4)), Number (Fin (3 / 4)), Number (Fin (3 / 4))]
       (Fin 400) (Fin 400) =
     \<lparr>boxX = Fin 100, boxY = Fin 100, boxWidth = Fin 200, boxHeight = Fin 200\<rparr>"
proof -
  have a: "representable (1727232811633571 / 4398046511104)" "representable 800"
    by code_simp+
  have b: "representable (1 / 4 * 400)" "representable (3 / 4 - 1 / 4)"
    "representable ((3 / 4 - 1 / 4) * 400)"
    by code_simp+
  have whole: "projectBox [Number (Fin 0), Number (Fin 0), Number (Fin 1), Number (Fin 1)]
       (Fin (1727232811633571 / 4398046511104)) (Fin 800) =
     \<lparr>boxX = Fin 0, boxY = Fin 0, boxWidth = Fin (1727232811633571 / 4398046511104),
      boxHeight = Fin 800\<rparr>"
    using a projectBox_rounded [of 0 0 1 1 "1727232811633571 / 4398046511104" 800]
    by blast
  have "projectBox [Number (Fin (1 / 4)), Number (Fin (1 / 4)), Number (Fin (3 / 4)), Number (Fin (3 / 4))]
       (Fin 400) (Fin 400) =
     \<lparr>boxX = Fin (1 / 4 * 400), boxY = Fin (1 / 4 * 400),
      boxWidth = Fin ((3 / 4 - 1 / 4) * 400), boxHeight = Fin ((3 / 4 - 1 / 4) * 400)\<rparr>"
    using b projectBox_rounded [of "1 / 4" "1 / 4" "3 / 4" "3 / 4" 400 400]
    by blast
  then have inner: "projectBox [Number (Fin (1 / 4)), Number (Fin (1 / 4)), Number (Fin (3 / 4)),
       Number (Fin (3 / 4))] (Fin 400) (Fin 400) =
     \<lparr>boxX = Fin 100, boxY = Fin 100, boxWidth = Fin 200, boxHeight = Fin 200\<rparr>"
    by simp
  show ?thesis
    by (intro conjI a b whole inner)
qed

section \<open>The busy flag\<close>

lemma try_block_flag:
  "isProcessing (fst (try_block e s))"
  by (simp add: try_block_def Let_def split: outcome.splits sum.splits)

lemma try_block_frame:
  "session (fst (try_block e s)) = session s \<and> cameraRef (fst (try_block e s)) = cameraRef s"
  by (simp add: try_block_def Let_def split: outcome.splits sum.splits)

lemma try_block_calls:
  "\<exists>cs. calls (fst (try_block e s)) = calls s @ TakePictureAsync # cs"
  by (simp add: try_block_def Let_def split: outcome.splits sum.splits)

lemma catch_block_frame:
  "session (catch_block t s) = session s \<and> cameraRef (catch_block t s) = cameraRef s \<and>
   calls (catch_block t s) = calls s \<and> detections (catch_block t s) = detections s"
  by (cases t) simp_all

lemma runDetection_refused:
  "session r = None \<or> cameraRef s = None \<or> isProcessing r \<Longrightarrow> runDetection e r s = s"
  by (simp add: runDetection_def)

lemma runDetection_started_calls:
  assumes "session r \<noteq> None" "cameraRef s \<noteq> None" "\<not> isProcessing r"
  shows "calls (runDetection e r s) \<noteq> calls s"
proof -
  obtain cs where "calls (fst (try_block e s)) = calls s @ TakePictureAsync # cs"
    using try_block_calls by blast
  with assms show ?thesis
    by (cases "try_block e s")
      (auto simp add: runDetection_def catch_block_frame split: completion.splits)
qed

lemma runDetection_flag:
  assumes "session r \<noteq> None" "cameraRef s \<noteq> None" "\<not> isProcessing r"
  shows "isProcessing (runDetection e r s) \<longleftrightarrow> snd (try_block e s) = Suspended"
  using assms try_block_flag [of e s]
  by (cases "try_block e s") (auto simp add: runDetection_def split: completion.splits)

lemma runDetection_frame:
  "session (runDetection e r s) = session s \<and> cameraRef (runDetection e r s) = cameraRef s"
  using try_block_frame [of e s]
  by (cases "try_block e s")
    (auto simp add: runDetection_def catch_block_frame split: completion.splits)

lemma rendered_busy_request_is_ignored:
  "isProcessing r \<Longrightarrow>
     runDetection e r s = s \<and> detections (runDetection e r s) = detections s \<and>
     calls (runDetection e r s) = calls s"
  by (simp add: runDetection_refused)

lemma request_after_render_is_ignored:
  assumes "session r \<noteq> None" "cameraRef s \<noteq> None" "\<not> isProcessing r"
    and "snd (try_block e s) = Suspended"
  shows "isProcessing (runDetection e r s) \<and>
         runDetection e' (runDetection e r s) (runDetection e r s) = runDetection e r s"
proof -
  have "isProcessing (runDetection e r s)"
    using assms by (simp add: runDetection_flag)
  then show ?thesis
    by (simp add: runDetection_refused)
qed


text \<open>
  C10. An invocation that starts a cycle and runs to completion, with success or with
  any error, leaves the busy flag reset; the session and the camera are as before, so
  the next request is accepted and starts a cycle. The invocation is that of the
  function of the current render.
\<close>

theorem flag_reset_on_completion:
  assumes "session s \<noteq> None" "cameraRef s \<noteq> None" "\<not> isProcessing s"
    and "snd (try_block e s) \<noteq> Suspended"
  shows "\<not> isProcessing (runDetection e s s) \<and>
         session (runDetection e s s) = session s \<and>
         cameraRef (runDetection e s s) = cameraRef s \<and>
         calls (runDetection e' (runDetection e s s) (runDetection e s s)) \<noteq>
           calls (runDetection e s s)"
proof -
  have idle: "\<not> isProcessing (runDetection e s s)"
    using assms by (simp add: runDetection_flag)
  moreover have "calls (runDetection e' (runDetection e s s) (runDetection e s s)) \<noteq>
      calls (runDetection e s s)"
    using assms(1,2) idle by (intro runDetection_started_calls) (simp_all add: runDetection_frame)
  ultimately show ?thesis
    by (simp add: runDetection_frame)
qed

theorem flag_reset_on_completion_witness:
  "\<not> isProcessing (runDetection env_ok ready ready) \<and>
   \<not> isProcessing (runDetection env_rejecting ready ready) \<and>
   \<not> isProcessing (runDetection env_rejecting_null ready ready) \<and>
   \<not> isProcessing (runDetection env_no_output ready ready) \<and>
   error (runDetection env_rejecting ready ready) =
     Some ''Detection failed: Camera is not running'' \<and>
   calls (runDetection env_ok (runDetection env_rejecting ready ready)
       (runDetection env_rejecting ready ready)) \<noteq>
     calls (runDetection env_rejecting ready ready)"
  using flag_reset_on_completion [of ready env_ok env_ok]
    flag_reset_on_completion [of ready env_rejecting env_ok]
    flag_reset_on_completion [of ready env_rejecting_null env_ok]
    flag_reset_on_completion [of ready env_no_output env_ok]
  by (simp add: examples runDetection_def try_block_def decode_results_def Let_def)

text \<open>
  C5. When the resized image has no data (the \<^verbatim>\<open>ImagePrepError\<close> of the specification)
  or the session gives no output array (\<^verbatim>\<open>NoDetectionData\<close>), the cycle is abandoned:
  the state at the end is the state at the start with the error message set and the
  calls of this one cycle recorded. So the detections are those from before, the busy
  flag is reset and the component is ready again, and no call has been made twice. The
  invocation is that of the function of the current render.
\<close>

theorem recoverable_errors:
  assumes "session s \<noteq> None" "cameraRef s \<noteq> None" "\<not> isProcessing s"
    and "takePictureAsync e = Resolved uri" "manipulateAsync e uri = Resolved b"
  shows "(falsy b \<longrightarrow>
            runDetection e s s =
              s\<lparr>error := Some ''Detection failed: Failed to process image'',
                calls := calls s @ [TakePictureAsync, ManipulateAsync]\<rparr> \<and>
            detections (runDetection e s s) = detections s \<and>
            \<not> isProcessing (runDetection e s s)) \<and>
         (\<not> falsy b \<and> atob e (the b) = Inr d \<and> run e (map of_char d) = Resolved None \<longrightarrow>
            runDetection e s s =
              s\<lparr>error := Some ''Detection failed: No detection results'',
                calls := calls s @ [TakePictureAsync, ManipulateAsync, SessionRun]\<rparr> \<and>
            detections (runDetection e s s) = detections s \<and>
            \<not> isProcessing (runDetection e s s))"
proof -
  have guard: "\<not> (session s = None \<or> cameraRef s = None \<or> isProcessing s)"
    using assms(1-3) by simp
  have idle: "isProcessing s = False"
    using assms(3) by simp
  show ?thesis
    unfolding runDetection_def if_not_P [OF guard]
    using assms(4,5) idle
    by (cases s) (simp add: try_block_def decode_results_def Let_def)
qed

theorem recoverable_errors_witness:
  "runDetection env_no_image ready ready =
     ready\<lparr>error := Some ''Detection failed: Failed to process image'',
       calls := [TakePictureAsync, ManipulateAsync]\<rparr> \<and>
   runDetection env_no_output ready ready =
     ready\<lparr>error := Some ''Detection failed: No detection results'',
       calls := [TakePictureAsync, ManipulateAsync, SessionRun]\<rparr> \<and>
   detections (runDetection env_no_image ready ready) = detections ready \<and>
   detections (runDetection env_no_output ready ready) = detections ready"
  using recoverable_errors [of ready env_no_image "''photo.jpg''" None]
    recoverable_errors [of ready env_no_output "''photo.jpg''" "Some ''QUJD''" "''ABC''"]
  by (simp add: examples)

end
